theory Spec2Isabelle
  imports Main "HOL-Library.Option_ord"
begin

section \<open>Data model\<close>

text \<open>
  The program keeps one table of daily market observations in \<^verbatim>\<open>db/db.parquet\<close>.
  Its columns are the keys of the two dictionaries built in \<^verbatim>\<open>retorna_data_bitcoin\<close>
  and \<^verbatim>\<open>retorna_data_instrumentos\<close>: \<^verbatim>\<open>date\<close> and eight numeric columns.
  A row of the data frame is a record with one field per column. Every cell of a polars
  column may be null, so every field is an \<open>option\<close>, \<open>None\<close> being null.

  A calendar date is its proleptic Gregorian ordinal (Python's \<^verbatim>\<open>date.toordinal()\<close>),
  an \<open>int\<close>. The order on \<open>int option\<close> puts \<open>None\<close> first, which is the place polars'
  \<^verbatim>\<open>sort\<close> gives nulls by default (\<^verbatim>\<open>nulls_last=False\<close>).

  The numeric values are never computed with in the part of the program modelled here,
  only copied; their type is the parameter \<open>'v\<close>.
\<close>

record 'v row =
  date :: "int option"
  price :: "'v option"
  total_volume :: "'v option"
  market_cap :: "'v option"
  price_gold :: "'v option"
  stock_index_dowjones :: "'v option"
  stock_index_sp500 :: "'v option"
  rate_US10Y :: "'v option"
  stock_index_ni225 :: "'v option"

type_synonym 'v frame = "'v row list"

text \<open>The eight numeric columns by name, and the cell of a row in a named column.\<close>

datatype column =
  Price | Total_volume | Market_cap | Price_gold
  | Stock_index_dowjones | Stock_index_sp500 | Rate_US10Y | Stock_index_ni225

fun cell :: "column \<Rightarrow> 'v row \<Rightarrow> 'v option" where
  "cell Price r = price r"
| "cell Total_volume r = total_volume r"
| "cell Market_cap r = market_cap r"
| "cell Price_gold r = price_gold r"
| "cell Stock_index_dowjones r = stock_index_dowjones r"
| "cell Stock_index_sp500 r = stock_index_sp500 r"
| "cell Rate_US10Y r = rate_US10Y r"
| "cell Stock_index_ni225 r = stock_index_ni225 r"

section \<open>The polars operations of \<^verbatim>\<open>paso_final_actualizar\<close>\<close>

text \<open>
  \<^verbatim>\<open>df.sort('date')\<close>: the rows in ascending order of \<^verbatim>\<open>date\<close>, nulls first. The
  call does not pass \<^verbatim>\<open>maintain_order=True\<close>, so the order in which rows of the same
  date come out is not fixed by the program. Two orders that polars produces: a frame
  whose date column is neither marked ascending nor descending and that is short comes
  out with the rows of each date in the order they had; a frame whose date column is
  marked as sorted descending is reversed instead of sorted, so the rows of each date
  come out in the reverse of the order they had.

  \<open>pl_sort\<close> is the sort that leaves the rows of each date in the order they had.
  \<open>pl_sort_ties tie\<close> is the sort under any order of ties: \<open>tie\<close> rearranges the rows
  of the frame, and the result is the rearranged frame sorted with its ties left as
  \<open>tie\<close> put them. Every sorted rearrangement \<open>s\<close> of a frame is of this form (take
  \<open>tie\<close> to return \<open>s\<close>). \<open>pl_sort\<close> is \<open>pl_sort_ties\<close> of the identity, and the reversal
  of a descending frame is \<open>pl_sort_ties rev\<close>.
\<close>

definition pl_sort :: "'v frame \<Rightarrow> 'v frame" where
  "pl_sort df = sort_key date df"

definition pl_sort_ties :: "('v frame \<Rightarrow> 'v frame) \<Rightarrow> 'v frame \<Rightarrow> 'v frame" where
  "pl_sort_ties tie df = sort_key date (tie df)"

text \<open>
  \<^verbatim>\<open>df.unique(subset=['date'], keep='last')\<close>: of the rows that share a date only the
  last one stays. The rows that stay keep their order (on the sorted frame the groups of
  equal dates are consecutive runs, and polars takes the last row of each run in turn).
\<close>

fun pl_unique_last :: "'v frame \<Rightarrow> 'v frame" where
  "pl_unique_last [] = []"
| "pl_unique_last (r # rs) =
     (if date r \<in> set (map date rs) then pl_unique_last rs else r # pl_unique_last rs)"

text \<open>
  \<^verbatim>\<open>df.fill_null(strategy='forward')\<close>: in every column (the \<^verbatim>\<open>date\<close> column too) a
  null cell takes the value of the cell above it, after that one was filled; a null with
  no value anywhere above it stays null. \<open>fill_from p\<close> fills a frame whose row above
  is \<open>p\<close>; above the first row there is nothing, which is the row of nulls.
\<close>

definition fill_cell :: "'a option \<Rightarrow> 'a option \<Rightarrow> 'a option" where
  "fill_cell prev c = (case c of None \<Rightarrow> prev | Some v \<Rightarrow> Some v)"

definition fill_row :: "'v row \<Rightarrow> 'v row \<Rightarrow> 'v row" where
  "fill_row p r =
     \<lparr> date = fill_cell (date p) (date r),
       price = fill_cell (price p) (price r),
       total_volume = fill_cell (total_volume p) (total_volume r),
       market_cap = fill_cell (market_cap p) (market_cap r),
       price_gold = fill_cell (price_gold p) (price_gold r),
       stock_index_dowjones = fill_cell (stock_index_dowjones p) (stock_index_dowjones r),
       stock_index_sp500 = fill_cell (stock_index_sp500 p) (stock_index_sp500 r),
       rate_US10Y = fill_cell (rate_US10Y p) (rate_US10Y r),
       stock_index_ni225 = fill_cell (stock_index_ni225 p) (stock_index_ni225 r) \<rparr>"

fun fill_from :: "'v row \<Rightarrow> 'v frame \<Rightarrow> 'v frame" where
  "fill_from p [] = []"
| "fill_from p (r # rs) = fill_row p r # fill_from (fill_row p r) rs"

definition null_row :: "'v row" where
  "null_row =
     \<lparr> date = None, price = None, total_volume = None, market_cap = None,
       price_gold = None, stock_index_dowjones = None, stock_index_sp500 = None,
       rate_US10Y = None, stock_index_ni225 = None \<rparr>"

definition pl_fill_null_forward :: "'v frame \<Rightarrow> 'v frame" where
  "pl_fill_null_forward df = fill_from null_row df"

text \<open>
  \<^verbatim>\<open>paso_final_actualizar\<close> (main.py, lines 18 to 26): sort by date, keep the last row
  of every date, forward fill. \<open>paso_final_actualizar\<close> is the function when the sort
  leaves the rows of each date in the order they had; \<open>paso_final_actualizar_ties tie\<close>
  is the function under the order of ties \<open>tie\<close>. Which row of a date is the last one,
  and so the one that stays, depends on that order.
\<close>

definition paso_final_actualizar :: "'v frame \<Rightarrow> 'v frame" where
  "paso_final_actualizar df = pl_fill_null_forward (pl_unique_last (pl_sort df))"

definition paso_final_actualizar_ties :: "('v frame \<Rightarrow> 'v frame) \<Rightarrow> 'v frame \<Rightarrow> 'v frame" where
  "paso_final_actualizar_ties tie df =
     pl_fill_null_forward (pl_unique_last (pl_sort_ties tie df))"

section \<open>Errors and effects\<close>

text \<open>
  Every stage of the program catches \<^verbatim>\<open>Exception\<close>, logs it and raises it again, so a
  stage either returns a value or fails; a failing stage is a result \<open>Inl e\<close>. The
  logger is a sink and is left out. What a stage does to the outside world is the list
  of events it returns, in the order they happen.
\<close>

datatype error =
  RequestError | KeyError | IndexError | DownloadError
  | ReadError | SchemaError | WriteError

datatype event =
  Http_get | Download string int int | Sleep nat | Read_parquet | Write_parquet

section \<open>Today's observation\<close>

text \<open>
  \<^verbatim>\<open>retorna_data_bitcoin\<close> (lines 30 to 51). The body of the CoinGecko response is a
  JSON object of lists of \<^verbatim>\<open>[timestamp, value]\<close> pairs; a JSON number or null is a
  \<open>'v option\<close>. The request, or the decoding of its body, may raise: the response is an
  \<open>error + json\<close>. \<^verbatim>\<open>data[k][0][1]\<close> raises KeyError or IndexError.
\<close>

type_synonym 'v json = "string \<rightharpoonup> 'v option list list"

record 'v bitcoin_dict =
  dict_date :: int
  dict_price :: "'v option"
  dict_total_volume :: "'v option"
  dict_market_cap :: "'v option"

definition subscript :: "'a list \<Rightarrow> nat \<Rightarrow> error + 'a" where
  "subscript xs i = (if i < length xs then Inr (xs ! i) else Inl IndexError)"

definition first_sample :: "'v json \<Rightarrow> string \<Rightarrow> error + 'v option" where
  "first_sample data k =
     (case data k of
        None \<Rightarrow> Inl KeyError
      | Some samples \<Rightarrow>
          (case subscript samples 0 of
             Inl e \<Rightarrow> Inl e
           | Inr pair \<Rightarrow> subscript pair 1))"

definition retorna_data_bitcoin :: "int \<Rightarrow> error + 'v json \<Rightarrow> error + 'v bitcoin_dict" where
  "retorna_data_bitcoin today response =
     (case response of
        Inl e \<Rightarrow> Inl e
      | Inr data \<Rightarrow>
          (case first_sample data ''prices'' of
             Inl e \<Rightarrow> Inl e
           | Inr p \<Rightarrow>
               (case first_sample data ''total_volumes'' of
                  Inl e \<Rightarrow> Inl e
                | Inr tv \<Rightarrow>
                    (case first_sample data ''market_caps'' of
                       Inl e \<Rightarrow> Inl e
                     | Inr mc \<Rightarrow>
                         Inr \<lparr> dict_date = today, dict_price = p,
                               dict_total_volume = tv, dict_market_cap = mc \<rparr>))))"

text \<open>
  \<^verbatim>\<open>retorna_data_instrumentos\<close> (lines 55 to 89). \<^verbatim>\<open>date.weekday()\<close> is
  \<^verbatim>\<open>(toordinal() + 6) % 7\<close>: Monday is 0, Saturday 5, Sunday 6. The answer of
  \<^verbatim>\<open>yf.download\<close> is a pandas frame, here the list of its rows; the call may raise.
  The two dates passed to it are kept as ordinals (the program formats them with
  \<^verbatim>\<open>strftime\<close>).
\<close>

definition weekday :: "int \<Rightarrow> int" where
  "weekday d = (d + 6) mod 7"

definition tickers :: "(string \<times> string) list" where
  "tickers =
     [(''price_gold'', ''GC=F''),
      (''stock_index_dowjones'', ''^DJI''),
      (''stock_index_sp500'', ''^GSPC''),
      (''rate_US10Y'', ''^TNX''),
      (''stock_index_ni225'', ''^N225'')]"

text \<open>\<^verbatim>\<open>DataFrame.empty\<close>: no rows or no columns.\<close>

definition df_empty :: "'v list list \<Rightarrow> bool" where
  "df_empty rows = (case rows of [] \<Rightarrow> True | r # _ \<Rightarrow> r = [])"

definition iloc00 :: "'v list list \<Rightarrow> error + 'v" where
  "iloc00 rows = (case rows of (v # _) # _ \<Rightarrow> Inr v | _ \<Rightarrow> Inl IndexError)"

text \<open>\<^verbatim>\<open>yahoo_response.iloc[0, 0] if not yahoo_response.empty else None\<close>\<close>

definition valor_de :: "'v list list \<Rightarrow> error + 'v option" where
  "valor_de yahoo_response =
     (if \<not> df_empty yahoo_response
      then (case iloc00 yahoo_response of Inl e \<Rightarrow> Inl e | Inr v \<Rightarrow> Inr (Some v))
      else Inr None)"

type_synonym 'v yahoo = "string \<Rightarrow> int \<Rightarrow> int \<Rightarrow> error + 'v list list"

text \<open>
  The loop over \<^verbatim>\<open>tickers.items()\<close>: one download per instrument, the value stored in
  the dictionary, then a sleep of 15 seconds. An exception leaves the loop.
\<close>

fun instrumentos_loop ::
  "'v yahoo \<Rightarrow> int \<Rightarrow> int \<Rightarrow> (string \<times> string) list \<Rightarrow> (string \<rightharpoonup> 'v option)
     \<Rightarrow> (error + (string \<rightharpoonup> 'v option)) \<times> event list" where
  "instrumentos_loop yf start stop [] diccionario = (Inr diccionario, [])"
| "instrumentos_loop yf start stop ((instrumento, simbolo) # rest) diccionario =
     (case yf simbolo start stop of
        Inl e \<Rightarrow> (Inl e, [Download simbolo start stop])
      | Inr yahoo_response \<Rightarrow>
          (case valor_de yahoo_response of
             Inl e \<Rightarrow> (Inl e, [Download simbolo start stop])
           | Inr valor \<Rightarrow>
               (case instrumentos_loop yf start stop rest (diccionario(instrumento \<mapsto> valor)) of
                  (res, evs) \<Rightarrow> (res, Download simbolo start stop # Sleep 15 # evs))))"

definition retorna_data_instrumentos ::
  "int \<Rightarrow> 'v yahoo \<Rightarrow> (error + (string \<rightharpoonup> 'v option)) \<times> event list" where
  "retorna_data_instrumentos today yf =
     (if weekday today \<in> set [5, 6]
      then (Inr [''price_gold'' \<mapsto> None,
                 ''stock_index_dowjones'' \<mapsto> None,
                 ''stock_index_sp500'' \<mapsto> None,
                 ''rate_US10Y'' \<mapsto> None,
                 ''stock_index_ni225'' \<mapsto> None], [])
      else instrumentos_loop yf today (today + 1) tickers Map.empty)"

text \<open>
  What the outside world answers during one attempt of the pipeline: the date at each
  of the two calls of \<^verbatim>\<open>datetime.now(ZoneInfo("America/Caracas")).date()\<close>, the CoinGecko
  response, the answers of Yahoo, and how the write of the parquet file ends.
\<close>

datatype write_outcome = Written | Open_failed | Failed_after nat

record 'v answers =
  today_bitcoin :: int
  coingecko :: "error + 'v json"
  today_instrumentos :: int
  yahoo :: "'v yahoo"
  write_end :: write_outcome

text \<open>
  \<^verbatim>\<open>pl.DataFrame(data_bitcoin | data_instrumentos)\<close>: a frame of one row. The two
  dictionaries share no key. Every dictionary that \<^verbatim>\<open>retorna_data_instrumentos\<close> returns
  has the five instrument keys (\<open>retorna_data_instrumentos_keys\<close> below), so the row is
  always built (\<open>pl_DataFrame_total\<close>); a frame built without one of them would lack
  a column and could not be stacked on the stored table.
\<close>

definition pl_DataFrame :: "'v bitcoin_dict \<Rightarrow> (string \<rightharpoonup> 'v option) \<Rightarrow> error + 'v frame" where
  "pl_DataFrame b m =
     (case (m ''price_gold'', m ''stock_index_dowjones'', m ''stock_index_sp500'',
            m ''rate_US10Y'', m ''stock_index_ni225'') of
        (Some g, Some dj, Some sp, Some us, Some ni) \<Rightarrow>
          Inr [\<lparr> date = Some (dict_date b), price = dict_price b,
                 total_volume = dict_total_volume b, market_cap = dict_market_cap b,
                 price_gold = g, stock_index_dowjones = dj, stock_index_sp500 = sp,
                 rate_US10Y = us, stock_index_ni225 = ni \<rparr>]
      | _ \<Rightarrow> Inl SchemaError)"

text \<open>\<^verbatim>\<open>obtener_data_hoy\<close> (lines 104 to 113): Bitcoin first, then the instruments.\<close>

definition obtener_data_hoy :: "'v answers \<Rightarrow> (error + 'v frame) \<times> event list" where
  "obtener_data_hoy a =
     (case retorna_data_bitcoin (today_bitcoin a) (coingecko a) of
        Inl e \<Rightarrow> (Inl e, [Http_get])
      | Inr data_bitcoin \<Rightarrow>
          (case retorna_data_instrumentos (today_instrumentos a) (yahoo a) of
             (Inl e, evs) \<Rightarrow> (Inl e, Http_get # evs)
           | (Inr data_instrumentos, evs) \<Rightarrow>
               (pl_DataFrame data_bitcoin data_instrumentos, Http_get # evs)))"

section \<open>The store and the pipeline\<close>

text \<open>
  The table file holds a list of bytes (of type \<open>'b\<close>), or is absent. The parquet
  reader and writer and the schema check of \<^verbatim>\<open>pl.concat(..., how='vertical')\<close> belong to
  polars; the program is modelled over any such three functions. The schema check
  compares the names and the types of the columns, which a row of this model does not
  carry, so it is not decided here whether a given pair of frames passes it.
\<close>

record ('v, 'b) polars =
  parquet_decode :: "'b list \<Rightarrow> error + 'v frame"
  parquet_encode :: "'v frame \<Rightarrow> 'b list"
  vstack_ok :: "'v frame \<Rightarrow> 'v frame \<Rightarrow> bool"

definition cargar_data_existente :: "('v, 'b) polars \<Rightarrow> 'b list option \<Rightarrow> error + 'v frame" where
  "cargar_data_existente P db =
     (case db of None \<Rightarrow> Inl ReadError | Some bytes \<Rightarrow> parquet_decode P bytes)"

definition concatenar :: "('v, 'b) polars \<Rightarrow> 'v frame \<Rightarrow> 'v frame \<Rightarrow> error + 'v frame" where
  "concatenar P df_existente df_hoy =
     (if vstack_ok P df_existente df_hoy then Inr (df_existente @ df_hoy) else Inl SchemaError)"

definition actualizar :: "'v frame \<Rightarrow> error + 'v frame" where
  "actualizar df = Inr (paso_final_actualizar df)"

text \<open>
  \<^verbatim>\<open>persistir\<close> (lines 139 to 145) calls \<^verbatim>\<open>df.write_parquet(ruta)\<close> on the path of the
  table itself: there is no temporary file and no rename. The writer opens the
  destination, which empties it, and writes the encoded table into it. A write that
  fails after \<open>k\<close> bytes leaves those \<open>k\<close> bytes in the file; when the file cannot be
  opened it is left as it was. \<open>persistir\<close> returns its result, the file and its events.
\<close>

definition persistir ::
  "('v, 'b) polars \<Rightarrow> write_outcome \<Rightarrow> 'v frame \<Rightarrow> 'b list option
     \<Rightarrow> (error + unit) \<times> 'b list option \<times> event list" where
  "persistir P w df db =
     (case w of
        Written \<Rightarrow> (Inr (), Some (parquet_encode P df), [Write_parquet])
      | Open_failed \<Rightarrow> (Inl WriteError, db, [Write_parquet])
      | Failed_after k \<Rightarrow> (Inl WriteError, Some (take k (parquet_encode P df)), [Write_parquet]))"

text \<open>
  One pass through the chain of \<^verbatim>\<open>pipeline_principal\<close> (lines 153 to 158). The stages
  before \<^verbatim>\<open>persistir\<close> are load, fetch, concatenate and update; the first one that fails
  ends the attempt.
\<close>

definition hasta_actualizar ::
  "('v, 'b) polars \<Rightarrow> 'v answers \<Rightarrow> 'b list option \<Rightarrow> (error + 'v frame) \<times> event list" where
  "hasta_actualizar P a db =
     (case cargar_data_existente P db of
        Inl e \<Rightarrow> (Inl e, [Read_parquet])
      | Inr df \<Rightarrow>
          (case obtener_data_hoy a of
             (Inl e, evs) \<Rightarrow> (Inl e, Read_parquet # evs)
           | (Inr df_hoy, evs) \<Rightarrow>
               (case concatenar P df df_hoy of
                  Inl e \<Rightarrow> (Inl e, Read_parquet # evs)
                | Inr df_concat \<Rightarrow> (actualizar df_concat, Read_parquet # evs))))"

definition intento ::
  "('v, 'b) polars \<Rightarrow> 'v answers \<Rightarrow> 'b list option
     \<Rightarrow> (error + unit) \<times> 'b list option \<times> event list" where
  "intento P a db =
     (case hasta_actualizar P a db of
        (Inl e, evs) \<Rightarrow> (Inl e, db, evs)
      | (Inr df, evs) \<Rightarrow>
          (case persistir P (write_end a) df db of
             (res, db', evs') \<Rightarrow> (res, db', evs @ evs')))"

text \<open>
  \<^verbatim>\<open>pipeline_principal\<close> (lines 149 to 165): up to three attempts; a failed attempt is
  followed by a sleep of 60 seconds; the first attempt that succeeds ends the run.
  \<open>ans i\<close> is what the world answers during attempt \<open>i\<close>. The result is the file after
  the run and the events of the run.
\<close>

fun pipeline_loop ::
  "('v, 'b) polars \<Rightarrow> (nat \<Rightarrow> 'v answers) \<Rightarrow> nat list \<Rightarrow> 'b list option
     \<Rightarrow> 'b list option \<times> event list" where
  "pipeline_loop P ans [] db = (db, [])"
| "pipeline_loop P ans (i # rest) db =
     (case intento P (ans i) db of
        (Inr u, db', evs) \<Rightarrow> (db', evs)
      | (Inl e, db', evs) \<Rightarrow>
          (case pipeline_loop P ans rest db' of
             (db'', evs') \<Rightarrow> (db'', evs @ Sleep 60 # evs')))"

definition pipeline_principal ::
  "('v, 'b) polars \<Rightarrow> (nat \<Rightarrow> 'v answers) \<Rightarrow> 'b list option \<Rightarrow> 'b list option \<times> event list" where
  "pipeline_principal P ans db = pipeline_loop P ans [1..<4] db"

text \<open>
  An example of the three library functions, for the closed examples below: a file is
  the rows of the table followed by a footer (\<open>None\<close>), as a parquet file ends with its
  metadata; a file without the footer does not load.
\<close>

fun footer_decode :: "'a option list \<Rightarrow> error + 'a list" where
  "footer_decode [] = Inl ReadError"
| "footer_decode [None] = Inr []"
| "footer_decode (None # x # xs) = Inl ReadError"
| "footer_decode (Some r # xs) =
     (case footer_decode xs of Inl e \<Rightarrow> Inl e | Inr rs \<Rightarrow> Inr (r # rs))"

definition footer_polars :: "('v, 'v row option) polars" where
  "footer_polars =
     \<lparr> parquet_decode = footer_decode,
       parquet_encode = (\<lambda>df. map Some df @ [None]),
       vstack_ok = (\<lambda>a b. True) \<rparr>"

section \<open>Example tables\<close>

text \<open>
  A table of five days whose \<^verbatim>\<open>price\<close> column is \<open>[5, null, null, 8, null]\<close> and whose
  other numeric columns were never observed, given out of date order.
\<close>

definition ejemplo_huecos :: "nat frame" where
  "ejemplo_huecos =
     [null_row\<lparr>date := Some 739924, price := Some 8\<rparr>,
      null_row\<lparr>date := Some 739921, price := Some 5\<rparr>,
      null_row\<lparr>date := Some 739922\<rparr>,
      null_row\<lparr>date := Some 739925\<rparr>,
      null_row\<lparr>date := Some 739923\<rparr>]"

text \<open>
  A stored table of two days, and a new row for its second day in which the price of
  gold is null and the Bitcoin price is new.
\<close>

definition ejemplo_historico :: "nat frame" where
  "ejemplo_historico =
     [null_row\<lparr>date := Some 739926, price := Some 100, price_gold := Some 5\<rparr>,
      null_row\<lparr>date := Some 739927, price := Some 101, price_gold := Some 7\<rparr>]"

definition ejemplo_fila :: "nat row" where
  "ejemplo_fila = null_row\<lparr>date := Some 739927, price := Some 102\<rparr>"



text \<open>
  Answers of the outside world: a CoinGecko body with one sample per series; a Yahoo that
  raises on every call; a Yahoo with no data for the Dow Jones and one row for every
  other symbol. 739927 is Saturday 2026-11-07 and 739924 is Wednesday 2026-11-04.
\<close>

definition ejemplo_coingecko :: "nat json" where
  "ejemplo_coingecko =
     [''prices'' \<mapsto> [[Some 1762000000, Some 101]],
      ''total_volumes'' \<mapsto> [[Some 1762000000, Some 7]],
      ''market_caps'' \<mapsto> [[Some 1762000000, Some 9]]]"

definition yahoo_caido :: "nat yahoo" where
  "yahoo_caido simbolo start stop = Inl DownloadError"

definition yahoo_sin_dow :: "nat yahoo" where
  "yahoo_sin_dow simbolo start stop = (if simbolo = ''^DJI'' then Inr [] else Inr [[42, 43]])"

definition ejemplo_sabado :: "nat answers" where
  "ejemplo_sabado =
     \<lparr> today_bitcoin = 739927, coingecko = Inr ejemplo_coingecko,
       today_instrumentos = 739927, yahoo = yahoo_caido, write_end = Written \<rparr>"

definition ejemplo_miercoles :: "nat answers" where
  "ejemplo_miercoles =
     \<lparr> today_bitcoin = 739924, coingecko = Inr ejemplo_coingecko,
       today_instrumentos = 739924, yahoo = yahoo_sin_dow, write_end = Written \<rparr>"

definition ejemplo_sin_red :: "nat answers" where
  "ejemplo_sin_red =
     \<lparr> today_bitcoin = 739924, coingecko = Inl RequestError,
       today_instrumentos = 739924, yahoo = yahoo_sin_dow, write_end = Written \<rparr>"

text \<open>
  A stored file in the example format, and the Saturday on which the write of the new
  file fails after its first byte.
\<close>

definition ejemplo_db :: "nat row option list option" where
  "ejemplo_db = Some (map Some ejemplo_historico @ [None])"

definition ejemplo_disco_lleno :: "nat answers" where
  "ejemplo_disco_lleno = ejemplo_sabado\<lparr>write_end := Failed_after 1\<rparr>"

section \<open>Properties of sorting, deduplication and forward fill\<close>

lemma set_pl_sort: "set (pl_sort df) = set df"
  by (simp add: pl_sort_def)

lemma sorted_pl_sort: "sorted (map date (pl_sort df))"
  by (simp add: pl_sort_def)

lemma dates_pl_unique_last: "set (map date (pl_unique_last df)) = set (map date df)"
  by (induction df) auto

lemma distinct_pl_unique_last: "distinct (map date (pl_unique_last df))"
proof (induction df)
  case Nil
  show ?case by simp
next
  case (Cons r rs)
  have "date r \<notin> set (map date rs) \<Longrightarrow> date r \<notin> set (map date (pl_unique_last rs))"
    using dates_pl_unique_last [of rs] by simp
  with Cons show ?case by simp
qed

lemma sorted_pl_unique_last: "sorted (map date df) \<Longrightarrow> sorted (map date (pl_unique_last df))"
proof (induction df)
  case Nil
  show ?case by simp
next
  case (Cons r rs)
  then have "\<forall>d \<in> set (map date rs). date r \<le> d" by simp
  then have "\<forall>d \<in> set (map date (pl_unique_last rs)). date r \<le> d"
    by (simp only: dates_pl_unique_last)
  with Cons show ?case by simp
qed

lemma date_fill_row: "date (fill_row p r) = fill_cell (date p) (date r)"
  by (simp add: fill_row_def)

lemma cell_fill_row: "cell c (fill_row p r) = fill_cell (cell c p) (cell c r)"
  by (cases c) (simp_all add: fill_row_def)

lemma length_fill_from: "length (fill_from p df) = length df"
  by (induction df arbitrary: p) simp_all

lemma dates_fill_from:
  "sorted (map date df) \<Longrightarrow> distinct (map date df) \<Longrightarrow> date p = None \<or> None \<notin> set (map date df)
   \<Longrightarrow> map date (fill_from p df) = map date df"
proof (induction df arbitrary: p)
  case Nil
  show ?case by simp
next
  case (Cons r rs)
  have hd: "date (fill_row p r) = date r"
    using Cons.prems(3) by (cases "date r") (auto simp: date_fill_row fill_cell_def)
  have "date r = None \<or> None \<notin> set (map date rs)"
  proof (cases "date r")
    case None
    then show ?thesis by simp
  next
    case (Some d)
    have "\<forall>x \<in> set (map date rs). date r \<le> x" using Cons.prems(1) by simp
    then have "None \<notin> set (map date rs)" using Some by (auto simp: image_iff)
    then show ?thesis by simp
  qed
  moreover have "date r = None \<Longrightarrow> None \<notin> set (map date rs)"
    using Cons.prems(2) by auto
  ultimately have "date (fill_row p r) = None \<or> None \<notin> set (map date rs)"
    using hd by auto
  then have "map date (fill_from (fill_row p r) rs) = map date rs"
    using Cons.IH [of "fill_row p r"] Cons.prems by simp
  with hd show ?case by simp
qed

lemma fill_cell_idem: "fill_cell p (fill_cell p c) = fill_cell p c"
  by (simp add: fill_cell_def split: option.splits)

lemma fill_row_idem: "fill_row p (fill_row p r) = fill_row p r"
  by (simp add: fill_row_def fill_cell_idem)

lemma fill_from_idem: "fill_from p (fill_from p df) = fill_from p df"
proof (induction df arbitrary: p)
  case Nil
  show ?case by simp
next
  case (Cons r rs)
  show ?case by (simp add: fill_row_idem Cons.IH)
qed

lemma fill_from_append:
  "fill_from p (xs @ ys) = fill_from p xs @ fill_from (last (p # fill_from p xs)) ys"
  by (induction xs arbitrary: p) simp_all

lemma pl_unique_last_append:
  "pl_unique_last (xs @ ys) =
     filter (\<lambda>r. date r \<notin> set (map date ys)) (pl_unique_last xs) @ pl_unique_last ys"
proof (induction xs)
  case Nil
  have "\<forall>r \<in> set (pl_unique_last ys). True" by simp
  show ?case by simp
next
  case (Cons r xs)
  show ?case
  proof (cases "date r \<in> set (map date xs)")
    case True
    then show ?thesis using Cons.IH by simp
  next
    case False
    then show ?thesis using Cons.IH by simp
  qed
qed

lemma pl_unique_last_distinct: "distinct (map date df) \<Longrightarrow> pl_unique_last df = df"
proof (induction df)
  case Nil
  show ?case by simp
next
  case (Cons r rs)
  then have "date r \<notin> set (map date rs)" and "pl_unique_last rs = rs" by simp_all
  then show ?case by simp
qed

lemma set_pl_unique_last: "set (pl_unique_last df) \<subseteq> set df"
proof (induction df)
  case Nil
  show ?case by simp
next
  case (Cons r rs)
  then show ?case by (cases "date r \<in> set (map date rs)") auto
qed

lemma pl_unique_last_same:
  assumes "\<forall>r \<in> set xs. date r = d" and "date x = d"
  shows "pl_unique_last (xs @ [x]) = [x]"
proof -
  have "\<forall>r \<in> set (pl_unique_last xs). date r = d"
    using assms(1) set_pl_unique_last [of xs] by blast
  then have "filter (\<lambda>r. date r \<notin> set (map date [x])) (pl_unique_last xs) = []"
    using assms(2) by (simp add: filter_empty_conv)
  moreover have "pl_unique_last [x] = [x]" by simp
  ultimately show ?thesis by (simp only: pl_unique_last_append append_Nil)
qed

lemma sorted_key_split:
  "sorted (map f xs) \<Longrightarrow>
     filter (\<lambda>y. f y < k) xs @ filter (\<lambda>y. f y = k) xs @ filter (\<lambda>y. k < f y) xs = xs"
proof (induction xs)
  case Nil
  show ?case by simp
next
  case (Cons x xs)
  then have le: "\<forall>y \<in> set xs. f x \<le> f y"
    and IH: "filter (\<lambda>y. f y < k) xs @ filter (\<lambda>y. f y = k) xs @ filter (\<lambda>y. k < f y) xs = xs"
    by simp_all
  consider "f x < k" | "f x = k" | "k < f x" by (rule linorder_cases)
  then show ?case
  proof cases
    case 1
    then show ?thesis using IH by auto
  next
    case 2
    then have "filter (\<lambda>y. f y < k) xs = []" using le by (auto simp: filter_empty_conv)
    then show ?thesis using 2 IH by auto
  next
    case 3
    then have "filter (\<lambda>y. f y < k) xs = []" "filter (\<lambda>y. f y = k) xs = []"
      using le by (auto simp: filter_empty_conv)
    then show ?thesis using 3 IH by auto
  qed
qed

lemma pl_sort_snoc:
  "pl_sort (df @ [x]) =
     pl_sort (filter (\<lambda>r. date r < date x) df) @ (filter (\<lambda>r. date r = date x) df @ [x])
       @ pl_sort (filter (\<lambda>r. date x < date r) df)"
proof -
  let ?s = "sort_key date (df @ [x])"
  have "sorted (map date ?s)" by simp
  from sorted_key_split [OF this, of "date x"]
  have "?s = filter (\<lambda>y. date y < date x) ?s @ filter (\<lambda>y. date y = date x) ?s @ filter (\<lambda>y. date x < date y) ?s"
    by (rule sym)
  also have "filter (\<lambda>y. date y < date x) ?s = sort_key date (filter (\<lambda>y. date y < date x) df)"
    by (simp add: filter_sort)
  also have "filter (\<lambda>y. date x < date y) ?s = sort_key date (filter (\<lambda>y. date x < date y) df)"
    by (simp add: filter_sort)
  also have "filter (\<lambda>y. date y = date x) ?s = filter (\<lambda>y. date y = date x) df @ [x]"
    by (simp add: sort_key_stable)
  finally show ?thesis by (simp add: pl_sort_def)
qed

lemma dates_paso:
  "map date (paso_final_actualizar df) = map date (pl_unique_last (pl_sort df))"
proof -
  have "sorted (map date (pl_unique_last (pl_sort df)))"
    by (rule sorted_pl_unique_last) (rule sorted_pl_sort)
  moreover have "distinct (map date (pl_unique_last (pl_sort df)))"
    by (rule distinct_pl_unique_last)
  moreover have "date (null_row :: 'a row) = None"
    by (simp add: null_row_def)
  ultimately show ?thesis
    unfolding paso_final_actualizar_def pl_fill_null_forward_def
    by (intro dates_fill_from) simp_all
qed

lemma sorted_paso: "sorted (map date (paso_final_actualizar df))"
  unfolding dates_paso by (rule sorted_pl_unique_last) (rule sorted_pl_sort)

lemma distinct_paso: "distinct (map date (paso_final_actualizar df))"
  unfolding dates_paso by (rule distinct_pl_unique_last)

lemma paso_fixed:
  assumes "sorted (map date df)" and "distinct (map date df)"
  shows "paso_final_actualizar df = pl_fill_null_forward df"
proof -
  have "pl_sort df = df"
    unfolding pl_sort_def using assms(1) by (rule sort_key_id_if_sorted)
  moreover have "pl_unique_last df = df"
    using assms(2) by (rule pl_unique_last_distinct)
  ultimately show ?thesis by (simp add: paso_final_actualizar_def)
qed

lemma paso_idem: "paso_final_actualizar (paso_final_actualizar df) = paso_final_actualizar df"
proof -
  have "paso_final_actualizar (paso_final_actualizar df) = pl_fill_null_forward (paso_final_actualizar df)"
    by (rule paso_fixed) (rule sorted_paso, rule distinct_paso)
  also have "\<dots> = paso_final_actualizar df"
    by (simp add: paso_final_actualizar_def pl_fill_null_forward_def fill_from_idem)
  finally show ?thesis .
qed

lemma unique_sort_snoc:
  "pl_unique_last (pl_sort (df @ [x])) =
     pl_unique_last (pl_sort (filter (\<lambda>r. date r < date x) df)) @ x #
     pl_unique_last (pl_sort (filter (\<lambda>r. date x < date r) df))"
proof -
  let ?L = "pl_sort (filter (\<lambda>r. date r < date x) df)"
  let ?E = "filter (\<lambda>r. date r = date x) df"
  let ?G = "pl_sort (filter (\<lambda>r. date x < date r) df)"
  have L: "\<forall>r \<in> set (pl_unique_last ?L). date r < date x"
    using set_pl_unique_last [of ?L] by (auto simp: set_pl_sort)
  have G: "\<forall>r \<in> set ?G. date x < date r"
    by (simp add: set_pl_sort)
  have E: "pl_unique_last (?E @ [x]) = [x]"
    by (rule pl_unique_last_same [where d = "date x"]) simp_all
  have notin: "date x \<notin> set (map date ?G)"
    using G by (metis (no_types, lifting) imageE list.set_map less_irrefl)
  have "pl_unique_last ((?E @ [x]) @ ?G) =
          filter (\<lambda>r. date r \<notin> set (map date ?G)) (pl_unique_last (?E @ [x])) @ pl_unique_last ?G"
    by (rule pl_unique_last_append)
  also have "\<dots> = filter (\<lambda>r. date r \<notin> set (map date ?G)) [x] @ pl_unique_last ?G"
    by (simp only: E)
  also have "\<dots> = x # pl_unique_last ?G"
    using notin by simp
  finally have EG: "pl_unique_last ((?E @ [x]) @ ?G) = x # pl_unique_last ?G" .
  have "\<forall>r \<in> set (pl_unique_last ?L). date r \<notin> set (map date ((?E @ [x]) @ ?G))"
  proof
    fix r assume "r \<in> set (pl_unique_last ?L)"
    then have "date r < date x" using L by blast
    then have "date r \<noteq> date x" by simp
    moreover have "\<forall>s \<in> set ?G. date r \<noteq> date s"
      using G \<open>date r < date x\<close> by (metis less_asym)
    ultimately
    show "date r \<notin> set (map date ((?E @ [x]) @ ?G))"
      by (simp add: image_iff)
  qed
  then have "filter (\<lambda>r. date r \<notin> set (map date ((?E @ [x]) @ ?G))) (pl_unique_last ?L) = pl_unique_last ?L"
    by (simp only: filter_True)
  then have "pl_unique_last (?L @ ((?E @ [x]) @ ?G)) = pl_unique_last ?L @ x # pl_unique_last ?G"
    using EG by (simp only: pl_unique_last_append [of ?L "(?E @ [x]) @ ?G"])
  then show ?thesis by (simp only: pl_sort_snoc append_assoc)
qed

lemma paso_snoc:
  "paso_final_actualizar (df @ [x]) =
     paso_final_actualizar (filter (\<lambda>r. date r < date x) df) @
     fill_row (last (null_row # paso_final_actualizar (filter (\<lambda>r. date r < date x) df))) x #
     fill_from (fill_row (last (null_row # paso_final_actualizar (filter (\<lambda>r. date r < date x) df))) x)
       (pl_unique_last (pl_sort (filter (\<lambda>r. date x < date r) df)))"
  by (simp add: paso_final_actualizar_def pl_fill_null_forward_def unique_sort_snoc fill_from_append)

lemma filter_around_key:
  fixes f :: "'a \<Rightarrow> 'k::linorder"
  assumes "\<forall>r \<in> set A. f r < k" and "f x = k" and "\<forall>r \<in> set B. k < f r"
  shows "filter (\<lambda>r. f r < k) (A @ x # B) = A"
    and "filter (\<lambda>r. k < f r) (A @ x # B) = B"
    and "filter (\<lambda>r. f r = k) (A @ x # B) = [x]"
proof -
  have A1: "filter (\<lambda>r. f r < k) A = A" using assms(1) by (simp only: filter_True)
  have A2: "filter (\<lambda>r. k < f r) A = []" using assms(1) by (auto simp: filter_empty_conv)
  have A3: "filter (\<lambda>r. f r = k) A = []" using assms(1) by (auto simp: filter_empty_conv)
  have B1: "filter (\<lambda>r. f r < k) B = []" using assms(3) by (auto simp: filter_empty_conv)
  have B2: "filter (\<lambda>r. k < f r) B = B" using assms(3) by (simp only: filter_True)
  have B3: "filter (\<lambda>r. f r = k) B = []" using assms(3) by (auto simp: filter_empty_conv)
  show "filter (\<lambda>r. f r < k) (A @ x # B) = A" using A1 B1 assms(2) by simp
  show "filter (\<lambda>r. k < f r) (A @ x # B) = B" using A2 B2 assms(2) by simp
  show "filter (\<lambda>r. f r = k) (A @ x # B) = [x]" using A3 B3 assms(2) by simp
qed

lemma map_eq_append_parts:
  assumes "map f (A @ x # B) = map f (A0 @ x0 # B0)" and "length A = length A0"
  shows "map f A = map f A0" and "f x = f x0" and "map f B = map f B0"
  using assms by simp_all

lemma paso_snoc_parts:
  fixes df :: "'v frame" and x :: "'v row"
  defines "A \<equiv> paso_final_actualizar (filter (\<lambda>r. date r < date x) df)"
  defines "x' \<equiv> fill_row (last (null_row # A)) x"
  defines "B \<equiv> fill_from x' (pl_unique_last (pl_sort (filter (\<lambda>r. date x < date r) df)))"
  shows "paso_final_actualizar (df @ [x]) = A @ x' # B"
    and "\<forall>r \<in> set A. date r < date x"
    and "date x' = date x"
    and "\<forall>r \<in> set B. date x < date r"
    and "sorted (map date B)"
    and "distinct (map date B)"
proof -
  let ?A0 = "pl_unique_last (pl_sort (filter (\<lambda>r. date r < date x) df))"
  let ?B0 = "pl_unique_last (pl_sort (filter (\<lambda>r. date x < date r) df))"
  show R: "paso_final_actualizar (df @ [x]) = A @ x' # B"
    unfolding A_def x'_def B_def by (rule paso_snoc)
  have "map date (paso_final_actualizar (df @ [x])) = map date (?A0 @ x # ?B0)"
    by (simp only: dates_paso unique_sort_snoc)
  then have m: "map date (A @ x' # B) = map date (?A0 @ x # ?B0)"
    by (simp only: R)
  have len: "length A = length ?A0"
    by (simp add: A_def paso_final_actualizar_def pl_fill_null_forward_def length_fill_from)
  have mA: "map date A = map date ?A0" and mx: "date x' = date x" and mB: "map date B = map date ?B0"
    using map_eq_append_parts [OF m len] by blast+
  show "date x' = date x" by (rule mx)
  have "set (map date A) = set (map date (filter (\<lambda>r. date r < date x) df))"
    by (simp only: mA dates_pl_unique_last) (simp add: set_pl_sort)
  then have "\<forall>d \<in> set (map date A). d < date x"
    by (simp add: image_iff)
  then show "\<forall>r \<in> set A. date r < date x" by simp
  have "set (map date B) = set (map date (filter (\<lambda>r. date x < date r) df))"
    by (simp only: mB dates_pl_unique_last) (simp add: set_pl_sort)
  then have "\<forall>d \<in> set (map date B). date x < d"
    by (simp add: image_iff)
  then show "\<forall>r \<in> set B. date x < date r" by simp
  show "sorted (map date B)"
    unfolding mB by (rule sorted_pl_unique_last) (rule sorted_pl_sort)
  show "distinct (map date B)"
    unfolding mB by (rule distinct_pl_unique_last)
qed

text \<open>
  When the sort leaves the rows of each date in the order they had, on both passes,
  reconciling a second time with the same row changes nothing.
\<close>

lemma reconcile_twice:
  "paso_final_actualizar (paso_final_actualizar (df @ [x]) @ [x]) = paso_final_actualizar (df @ [x])"
proof -
  define A where "A = paso_final_actualizar (filter (\<lambda>r. date r < date x) df)"
  define x' where "x' = fill_row (last (null_row # A)) x"
  define B0 where "B0 = pl_unique_last (pl_sort (filter (\<lambda>r. date x < date r) df))"
  define B where "B = fill_from x' B0"
  note parts = paso_snoc_parts [where df = df and x = x, folded A_def, folded x'_def, folded B0_def, folded B_def]
  let ?R = "A @ x' # B"
  have R: "paso_final_actualizar (df @ [x]) = ?R" by (rule parts(1))
  have fl: "filter (\<lambda>r. date r < date x) ?R = A"
    and fg: "filter (\<lambda>r. date x < date r) ?R = B"
    using filter_around_key [of A date "date x" x' B] parts(2,3,4) by blast+
  have pA: "paso_final_actualizar A = A"
    unfolding A_def by (rule paso_idem)
  have sB: "pl_sort B = B"
    unfolding pl_sort_def using parts(5) by (rule sort_key_id_if_sorted)
  have uB: "pl_unique_last B = B"
    using parts(6) by (rule pl_unique_last_distinct)
  have fB: "fill_from x' B = B"
    unfolding B_def by (rule fill_from_idem)
  have "paso_final_actualizar (?R @ [x]) =
          paso_final_actualizar (filter (\<lambda>r. date r < date x) ?R) @
          fill_row (last (null_row # paso_final_actualizar (filter (\<lambda>r. date r < date x) ?R))) x #
          fill_from (fill_row (last (null_row # paso_final_actualizar (filter (\<lambda>r. date r < date x) ?R))) x)
            (pl_unique_last (pl_sort (filter (\<lambda>r. date x < date r) ?R)))"
    by (rule paso_snoc)
  also have "\<dots> = A @ x' # B"
    by (simp only: fl fg pA sB uB fB x'_def [symmetric])
  finally show ?thesis by (simp only: R)
qed

lemma fill_from_nth:
  "i < length df \<Longrightarrow>
     fill_from p df ! i = fill_row (if i = 0 then p else fill_from p df ! (i - 1)) (df ! i)"
proof (induction df arbitrary: p i)
  case Nil
  then show ?case by simp
next
  case (Cons r rs)
  show ?case
  proof (cases i)
    case 0
    then show ?thesis by simp
  next
    case (Suc k)
    then have k: "k < length rs" using Cons.prems by simp
    show ?thesis
    proof (cases k)
      case 0
      then show ?thesis using Suc Cons.IH [OF k, of "fill_row p r"] by simp
    next
      case (Suc n)
      then show ?thesis using \<open>i = Suc k\<close> Cons.IH [OF k, of "fill_row p r"] by simp
    qed
  qed
qed

lemma cell_fill_from_keep:
  assumes "i < length df" and "cell c (df ! i) = Some v"
  shows "cell c (fill_from p df ! i) = Some v"
  using assms by (simp add: fill_from_nth cell_fill_row fill_cell_def)

lemma cell_fill_from_gap:
  "i < length df \<Longrightarrow> j \<le> i \<Longrightarrow> cell c (df ! j) = Some v \<Longrightarrow>
     (\<forall>k. j < k \<and> k \<le> i \<longrightarrow> cell c (df ! k) = None) \<Longrightarrow>
     cell c (fill_from p df ! i) = Some v"
proof (induction i)
  case 0
  then show ?case by (simp add: cell_fill_from_keep)
next
  case (Suc i)
  show ?case
  proof (cases "j = Suc i")
    case True
    then show ?thesis using Suc.prems by (simp add: cell_fill_from_keep)
  next
    case False
    then have ji: "j \<le> i" using Suc.prems(2) by simp
    have "cell c (fill_from p df ! i) = Some v"
      using Suc.IH ji Suc.prems by simp
    moreover have "cell c (df ! Suc i) = None"
      using Suc.prems(4) ji by simp
    ultimately show ?thesis
      using Suc.prems(1) by (simp add: fill_from_nth cell_fill_row fill_cell_def)
  qed
qed

lemma cell_fill_from_leading:
  "i < length df \<Longrightarrow> (\<forall>k. k \<le> i \<longrightarrow> cell c (df ! k) = None) \<Longrightarrow>
     cell c (fill_from p df ! i) = cell c p"
proof (induction i)
  case 0
  then show ?case by (simp add: fill_from_nth cell_fill_row fill_cell_def)
next
  case (Suc i)
  then have "cell c (fill_from p df ! i) = cell c p" by simp
  moreover have "cell c (df ! Suc i) = None" using Suc.prems(2) by simp
  ultimately show ?case
    using Suc.prems(1) by (simp add: fill_from_nth cell_fill_row fill_cell_def)
qed

lemma cell_null_row: "cell c null_row = None"
  by (cases c) (simp_all add: null_row_def)

lemma length_paso: "length (paso_final_actualizar df) = length (pl_unique_last (pl_sort df))"
  by (simp add: paso_final_actualizar_def pl_fill_null_forward_def length_fill_from)

text \<open>
  The reconcile step under any order of ties is the reconcile step of the rearranged
  frame, so what does not depend on the order of ties holds for every order: the output
  is sorted with one row per date, and it has the dates of the input.
\<close>

lemma paso_ties_rearranged:
  "paso_final_actualizar_ties tie df = paso_final_actualizar (tie df)"
  by (simp add: paso_final_actualizar_ties_def paso_final_actualizar_def pl_sort_ties_def pl_sort_def)

lemma paso_ties_id: "paso_final_actualizar_ties id df = paso_final_actualizar df"
  by (simp add: paso_ties_rearranged)

lemma sorted_paso_ties:
  "sorted (map date (paso_final_actualizar_ties tie df)) \<and>
   distinct (map date (paso_final_actualizar_ties tie df))"
  by (simp only: paso_ties_rearranged sorted_paso distinct_paso simp_thms)

lemma dates_paso_ties:
  assumes "set (tie df) = set df"
  shows "set (map date (paso_final_actualizar_ties tie df)) = set (map date df)"
proof -
  have "set (map date (paso_final_actualizar (tie df))) = set (map date (pl_unique_last (pl_sort (tie df))))"
    by (simp only: dates_paso)
  also have "\<dots> = set (map date (pl_sort (tie df)))"
    by (rule dates_pl_unique_last)
  also have "\<dots> = set (map date df)"
    by (simp add: set_pl_sort assms)
  finally show ?thesis by (simp only: paso_ties_rearranged)
qed






text \<open>The unfoldings that evaluate the reconcile step on an example table.\<close>

lemmas ejemplo_defs =
  ejemplo_huecos_def ejemplo_historico_def ejemplo_fila_def
  paso_final_actualizar_def pl_sort_def pl_fill_null_forward_def
  fill_row_def fill_cell_def null_row_def


section \<open>Properties of the fetch stage\<close>

lemma valor_de_total:
  "valor_de r = Inr (if df_empty r then None else Some (hd (hd r)))"
proof (cases r)
  case Nil
  then show ?thesis by (simp add: valor_de_def df_empty_def)
next
  case (Cons x xs)
  then show ?thesis by (cases x) (simp_all add: valor_de_def df_empty_def iloc00_def)
qed

lemma instrumentos_loop_all_answered:
  assumes "\<forall>(k, s) \<in> set ts. yf s a b = Inr (resp s)"
  shows "instrumentos_loop yf a b ts d =
     (Inr (fold (\<lambda>(k, s) m. m(k \<mapsto> (if df_empty (resp s) then None else Some (hd (hd (resp s)))))) ts d),
      concat (map (\<lambda>(k, s). [Download s a b, Sleep 15]) ts))"
  using assms
proof (induction ts arbitrary: d)
  case Nil
  show ?case by simp
next
  case (Cons t ts)
  obtain k s where t: "t = (k, s)" by (cases t)
  have here: "yf s a b = Inr (resp s)" using Cons.prems t by simp
  have rest: "\<forall>(k, s) \<in> set ts. yf s a b = Inr (resp s)" using Cons.prems by simp
  show ?case
    unfolding t by (simp add: here valor_de_total Cons.IH [OF rest])
qed

lemma instrumentos_loop_keys:
  "instrumentos_loop yf a b ts d = (Inr m, evs) \<Longrightarrow> dom m = dom d \<union> fst ` set ts"
proof (induction ts arbitrary: d evs)
  case Nil
  then show ?case by simp
next
  case (Cons t ts)
  obtain k s where t: "t = (k, s)" by (cases t)
  from Cons.prems obtain r v evs' where
    "yf s a b = Inr r" and "valor_de r = Inr v"
    and rec: "instrumentos_loop yf a b ts (d(k \<mapsto> v)) = (Inr m, evs')"
    unfolding t by (auto split: sum.splits prod.splits)
  from Cons.IH [OF rec] show ?case unfolding t by auto
qed

lemma retorna_data_instrumentos_keys:
  assumes "retorna_data_instrumentos today yf = (Inr m, evs)"
  shows "\<exists>g dj sp us ni.
           m ''price_gold'' = Some g \<and> m ''stock_index_dowjones'' = Some dj \<and>
           m ''stock_index_sp500'' = Some sp \<and> m ''rate_US10Y'' = Some us \<and>
           m ''stock_index_ni225'' = Some ni"
proof (cases "weekday today \<in> set [5, 6]")
  case True
  then have "m = [''price_gold'' \<mapsto> None, ''stock_index_dowjones'' \<mapsto> None,
       ''stock_index_sp500'' \<mapsto> None, ''rate_US10Y'' \<mapsto> None, ''stock_index_ni225'' \<mapsto> None]"
    using assms unfolding retorna_data_instrumentos_def by (simp only: if_True prod.inject sum.inject)
  then show ?thesis by simp
next
  case False
  then have "instrumentos_loop yf today (today + 1) tickers Map.empty = (Inr m, evs)"
    using assms unfolding retorna_data_instrumentos_def by (simp only: if_False)
  from instrumentos_loop_keys [OF this] have d: "dom m = fst ` set tickers" by simp
  have "''price_gold'' \<in> dom m" "''stock_index_dowjones'' \<in> dom m"
    "''stock_index_sp500'' \<in> dom m" "''rate_US10Y'' \<in> dom m" "''stock_index_ni225'' \<in> dom m"
    unfolding d by (simp_all add: tickers_def)
  then show ?thesis by (simp only: dom_def mem_Collect_eq) blast
qed

lemma pl_DataFrame_total:
  assumes "retorna_data_instrumentos today yf = (Inr m, evs)"
  shows "\<exists>r. pl_DataFrame b m = Inr [r]"
proof -
  from retorna_data_instrumentos_keys [OF assms] obtain g dj sp us ni where
    "m ''price_gold'' = Some g" "m ''stock_index_dowjones'' = Some dj"
    "m ''stock_index_sp500'' = Some sp" "m ''rate_US10Y'' = Some us"
    "m ''stock_index_ni225'' = Some ni" by blast
  then show ?thesis by (simp add: pl_DataFrame_def)
qed

lemma ejemplo_bitcoin:
  "retorna_data_bitcoin 739927 (Inr ejemplo_coingecko) =
     Inr \<lparr> dict_date = 739927, dict_price = Some 101,
           dict_total_volume = Some 7, dict_market_cap = Some 9 \<rparr>"
  by (simp add: retorna_data_bitcoin_def first_sample_def subscript_def ejemplo_coingecko_def)

section \<open>Properties of the pipeline\<close>

lemma instrumentos_loop_no_write:
  "Write_parquet \<notin> set (snd (instrumentos_loop yf a b ts d))"
proof (induction ts arbitrary: d)
  case Nil
  show ?case by simp
next
  case (Cons t ts)
  obtain k s where t: "t = (k, s)" by (cases t)
  show ?case
  proof (cases "yf s a b")
    case (Inl e)
    then show ?thesis unfolding t by simp
  next
    case (Inr r)
    show ?thesis
    proof (cases "valor_de r")
      case (Inl e)
      then show ?thesis unfolding t using Inr by simp
    next
      case v: (Inr v)
      obtain res evs where rec: "instrumentos_loop yf a b ts (d(k \<mapsto> v)) = (res, evs)"
        by (cases "instrumentos_loop yf a b ts (d(k \<mapsto> v))")
      have "Write_parquet \<notin> set evs"
        using Cons.IH rec by (metis snd_conv)
      then show ?thesis unfolding t using Inr v rec by simp
    qed
  qed
qed

lemma retorna_data_instrumentos_no_write:
  "Write_parquet \<notin> set (snd (retorna_data_instrumentos today yf))"
  by (simp add: retorna_data_instrumentos_def instrumentos_loop_no_write)

lemma obtener_data_hoy_no_write:
  fixes a :: "'v answers"
  shows "Write_parquet \<notin> set (snd (obtener_data_hoy a))"
proof (cases "retorna_data_bitcoin (today_bitcoin a) (coingecko a)")
  case (Inl e)
  then show ?thesis by (simp add: obtener_data_hoy_def)
next
  case (Inr b)
  obtain res evs where r: "retorna_data_instrumentos (today_instrumentos a) (yahoo a) = (res, evs)"
    by (cases "retorna_data_instrumentos (today_instrumentos a) (yahoo a)")
  have "Write_parquet \<notin> set evs"
    using retorna_data_instrumentos_no_write [of "today_instrumentos a" "yahoo a"] r by simp
  then show ?thesis using Inr r by (cases res) (simp_all add: obtener_data_hoy_def)
qed

lemma hasta_actualizar_no_write:
  fixes a :: "'v answers" and P :: "('v, 'b) polars"
  shows "Write_parquet \<notin> set (snd (hasta_actualizar P a db))"
proof (cases "cargar_data_existente P db")
  case (Inl e)
  then show ?thesis by (simp add: hasta_actualizar_def)
next
  case (Inr df)
  obtain res evs where r: "obtener_data_hoy a = (res, evs)"
    by (cases "obtener_data_hoy a")
  have e: "Write_parquet \<notin> set evs"
    using obtener_data_hoy_no_write [of a] r by simp
  show ?thesis
  proof (cases res)
    case (Inl e')
    then show ?thesis using Inr r e by (simp add: hasta_actualizar_def)
  next
    case hoy: (Inr df_hoy)
    then show ?thesis using Inr r e
      by (cases "concatenar P df df_hoy") (simp_all add: hasta_actualizar_def)
  qed
qed

lemma fetch_failure_ends_attempt:
  fixes a :: "'v answers" and P :: "('v, 'b) polars"
  assumes "fst (obtener_data_hoy a) = Inl e"
  shows "\<exists>e'. fst (hasta_actualizar P a db) = Inl e'"
proof (cases "cargar_data_existente P db")
  case (Inl e0)
  then show ?thesis by (simp add: hasta_actualizar_def)
next
  case (Inr df)
  obtain evs where "obtener_data_hoy a = (Inl e, evs)"
    using assms by (cases "obtener_data_hoy a") simp
  then show ?thesis using Inr by (simp add: hasta_actualizar_def)
qed

lemma intento_failed_before_persist:
  fixes a :: "'v answers" and P :: "('v, 'b) polars"
  assumes "fst (hasta_actualizar P a db) = Inl e"
  shows "intento P a db = (Inl e, db, snd (hasta_actualizar P a db))"
proof -
  obtain evs where "hasta_actualizar P a db = (Inl e, evs)"
    using assms by (cases "hasta_actualizar P a db") simp
  then show ?thesis by (simp add: intento_def)
qed

lemma pipeline_loop_all_failed:
  fixes ans :: "nat \<Rightarrow> 'v answers" and P :: "('v, 'b) polars"
  assumes "\<forall>i \<in> set attempts. \<exists>e. fst (hasta_actualizar P (ans i) db) = Inl e"
  shows "fst (pipeline_loop P ans attempts db) = db \<and>
         Write_parquet \<notin> set (snd (pipeline_loop P ans attempts db))"
  using assms
proof (induction attempts)
  case Nil
  show ?case by simp
next
  case (Cons i rest)
  from Cons.prems obtain e where e: "fst (hasta_actualizar P (ans i) db) = Inl e" by auto
  have here: "intento P (ans i) db = (Inl e, db, snd (hasta_actualizar P (ans i) db))"
    using e by (rule intento_failed_before_persist)
  have IH: "fst (pipeline_loop P ans rest db) = db \<and>
         Write_parquet \<notin> set (snd (pipeline_loop P ans rest db))"
    using Cons.IH Cons.prems by simp
  obtain db'' evs' where rest: "pipeline_loop P ans rest db = (db'', evs')"
    by (cases "pipeline_loop P ans rest db")
  show ?case
    using IH hasta_actualizar_no_write [of P "ans i" db]
    by (simp add: here rest)
qed

lemma attempts_123: "[1..<4] = [1, 2, 3 :: nat]"
  by (simp add: upt_conv_Cons)

lemma ejemplo_carga: "cargar_data_existente footer_polars ejemplo_db = Inr ejemplo_historico"
  by (simp add: cargar_data_existente_def footer_polars_def ejemplo_db_def ejemplo_historico_def)

lemma ejemplo_hoy_sabado:
  "obtener_data_hoy ejemplo_sabado =
     (Inr [null_row\<lparr>date := Some 739927, price := Some 101, total_volume := Some 7,
                    market_cap := Some 9\<rparr>], [Http_get])"
  "obtener_data_hoy ejemplo_disco_lleno =
     (Inr [null_row\<lparr>date := Some 739927, price := Some 101, total_volume := Some 7,
                    market_cap := Some 9\<rparr>], [Http_get])"
  by (simp_all add: obtener_data_hoy_def ejemplo_disco_lleno_def ejemplo_sabado_def ejemplo_bitcoin
      retorna_data_instrumentos_def weekday_def pl_DataFrame_def null_row_def)

lemma ejemplo_actualizado:
  "paso_final_actualizar (ejemplo_historico @
      [null_row\<lparr>date := Some 739927, price := Some 101, total_volume := Some 7,
                 market_cap := Some 9\<rparr>]) =
     [null_row\<lparr>date := Some 739926, price := Some 100, price_gold := Some 5\<rparr>,
      null_row\<lparr>date := Some 739927, price := Some 101, total_volume := Some 7,
                market_cap := Some 9, price_gold := Some 5\<rparr>]"
  by (simp add: ejemplo_defs)

lemma ejemplo_hasta:
  "hasta_actualizar footer_polars ejemplo_disco_lleno ejemplo_db =
     (Inr [null_row\<lparr>date := Some 739926, price := Some 100, price_gold := Some 5\<rparr>,
           null_row\<lparr>date := Some 739927, price := Some 101, total_volume := Some 7,
                     market_cap := Some 9, price_gold := Some 5\<rparr>],
      [Read_parquet, Http_get])"
  "hasta_actualizar footer_polars ejemplo_sabado ejemplo_db =
     (Inr [null_row\<lparr>date := Some 739926, price := Some 100, price_gold := Some 5\<rparr>,
           null_row\<lparr>date := Some 739927, price := Some 101, total_volume := Some 7,
                     market_cap := Some 9, price_gold := Some 5\<rparr>],
      [Read_parquet, Http_get])"
  by (simp_all add: hasta_actualizar_def ejemplo_carga ejemplo_hoy_sabado concatenar_def
      actualizar_def ejemplo_actualizado) (simp_all add: footer_polars_def)

section \<open>The claims\<close>





text \<open>
  Claim C3. Forward fill works column by column in date order. For a null cell of row
  \<open>i\<close> (of the sorted, deduplicated frame) in column \<open>c\<close>: if row \<open>j < i\<close> holds a value
  \<open>v\<close> in that column and every row between them holds null there, the output cell is
  \<open>v\<close>; if no earlier row holds a value in that column, the output cell stays null.
  The dates of the rows are strictly increasing, so an earlier row is an earlier date.
  The witness is the column \<open>[5, null, null, 8, null]\<close>, which becomes
  \<open>[5, 5, 5, 8, 8]\<close>, beside a column of nulls, which stays as it is.
\<close>

theorem forward_fill_per_column:
  assumes "i < length (pl_unique_last (pl_sort df))"
    and "cell c (pl_unique_last (pl_sort df) ! i) = None"
  shows "(\<forall>j v. j < i \<and> cell c (pl_unique_last (pl_sort df) ! j) = Some v \<and>
            (\<forall>k. j < k \<and> k < i \<longrightarrow> cell c (pl_unique_last (pl_sort df) ! k) = None)
            \<longrightarrow> cell c (paso_final_actualizar df ! i) = Some v) \<and>
         ((\<forall>j. j < i \<longrightarrow> cell c (pl_unique_last (pl_sort df) ! j) = None)
            \<longrightarrow> cell c (paso_final_actualizar df ! i) = None) \<and>
         sorted_wrt (<) (map date (pl_unique_last (pl_sort df)))"
proof (intro conjI allI impI)
  let ?S = "pl_unique_last (pl_sort df)"
  fix j v
  assume h: "j < i \<and> cell c (?S ! j) = Some v \<and> (\<forall>k. j < k \<and> k < i \<longrightarrow> cell c (?S ! k) = None)"
  have gap: "\<forall>k. j < k \<and> k \<le> i \<longrightarrow> cell c (?S ! k) = None"
  proof (intro allI impI)
    fix k assume "j < k \<and> k \<le> i"
    then show "cell c (?S ! k) = None"
      using h assms(2) by (cases "k = i") simp_all
  qed
  have "j \<le> i" using h by simp
  moreover have "cell c (?S ! j) = Some v" using h by simp
  ultimately show "cell c (paso_final_actualizar df ! i) = Some v"
    unfolding paso_final_actualizar_def pl_fill_null_forward_def
    using assms(1) gap by (intro cell_fill_from_gap [where j = j]) simp_all
next
  let ?S = "pl_unique_last (pl_sort df)"
  assume h: "\<forall>j. j < i \<longrightarrow> cell c (?S ! j) = None"
  have "\<forall>k. k \<le> i \<longrightarrow> cell c (?S ! k) = None"
  proof (intro allI impI)
    fix k assume "k \<le> i"
    then show "cell c (?S ! k) = None"
      using h assms(2) by (cases "k = i") simp_all
  qed
  then have "cell c (fill_from null_row ?S ! i) = cell c null_row"
    using assms(1) by (intro cell_fill_from_leading) simp_all
  then show "cell c (paso_final_actualizar df ! i) = None"
    by (simp add: paso_final_actualizar_def pl_fill_null_forward_def cell_null_row)
next
  have "sorted (map date (pl_unique_last (pl_sort df)))"
    by (rule sorted_pl_unique_last) (rule sorted_pl_sort)
  then show "sorted_wrt (<) (map date (pl_unique_last (pl_sort df)))"
    by (simp only: strict_sorted_iff distinct_pl_unique_last simp_thms)
qed

theorem forward_fill_per_column_witness:
  "cell Price (paso_final_actualizar ejemplo_huecos ! 4) = Some 8 \<and>
   cell Price_gold (paso_final_actualizar ejemplo_huecos ! 4) = None \<and>
   map price (pl_unique_last (pl_sort ejemplo_huecos)) = [Some 5, None, None, Some 8, None] \<and>
   map price (paso_final_actualizar ejemplo_huecos) = [Some 5, Some 5, Some 5, Some 8, Some 8] \<and>
   map price_gold (pl_unique_last (pl_sort ejemplo_huecos)) = [None, None, None, None, None] \<and>
   map price_gold (paso_final_actualizar ejemplo_huecos) = [None, None, None, None, None]"
proof -
  let ?S = "pl_unique_last (pl_sort ejemplo_huecos)"
  have S: "?S =
     [null_row\<lparr>date := Some 739921, price := Some 5\<rparr>,
      null_row\<lparr>date := Some 739922\<rparr>,
      null_row\<lparr>date := Some 739923\<rparr>,
      null_row\<lparr>date := Some 739924, price := Some 8\<rparr>,
      null_row\<lparr>date := Some 739925\<rparr>]"
    by (simp add: ejemplo_huecos_def pl_sort_def null_row_def)
  have len: "4 < length ?S" by (simp add: S)
  have p4: "cell Price (?S ! 4) = None" by (simp add: S null_row_def)
  have g4: "cell Price_gold (?S ! 4) = None" by (simp add: S null_row_def)
  have p3: "3 < (4::nat) \<and> cell Price (?S ! 3) = Some 8 \<and>
             (\<forall>k. 3 < k \<and> k < 4 \<longrightarrow> cell Price (?S ! k) = None)"
    by (simp add: S null_row_def)
  have gall: "\<forall>j. j < 4 \<longrightarrow> cell Price_gold (?S ! j) = None"
  proof (intro allI impI)
    fix j :: nat assume "j < 4"
    then consider "j = 0" | "j = 1" | "j = 2" | "j = 3" by linarith
    then show "cell Price_gold (?S ! j) = None"
      by cases (simp_all add: S null_row_def)
  qed
  have "cell Price (paso_final_actualizar ejemplo_huecos ! 4) = Some 8"
    using forward_fill_per_column [OF len p4] p3 by blast
  moreover have "cell Price_gold (paso_final_actualizar ejemplo_huecos ! 4) = None"
    using forward_fill_per_column [OF len g4] gall by blast
  moreover have "map price ?S = [Some 5, None, None, Some 8, None]"
    by (simp add: S null_row_def)
  moreover have "map price_gold ?S = [None, None, None, None, None]"
    by (simp add: S null_row_def)
  moreover have "map price (paso_final_actualizar ejemplo_huecos) = [Some 5, Some 5, Some 5, Some 8, Some 8]"
    by (simp add: ejemplo_defs)
  moreover have "map price_gold (paso_final_actualizar ejemplo_huecos) = [None, None, None, None, None]"
    by (simp add: ejemplo_defs)
  ultimately show ?thesis by blast
qed

text \<open>
  Claim C4. For every input frame, the dates of the frame that \<^verbatim>\<open>paso_final_actualizar\<close>
  returns are in ascending order, a null date first: they never decrease, and since one
  row is left per date they strictly increase.
\<close>

theorem reconcile_sorted:
  "sorted (map date (paso_final_actualizar df)) \<and>
   sorted_wrt (<) (map date (paso_final_actualizar df))"
  by (simp only: strict_sorted_iff sorted_paso distinct_paso simp_thms)

text \<open>
  Claim C5. When the date read in \<^verbatim>\<open>retorna_data_instrumentos\<close> is a Saturday or a
  Sunday, the function returns the five instrument fields as null and makes no call at
  all (no download, no sleep), whatever Yahoo would have answered; and when the Bitcoin
  data was obtained, today's row has its five instrument fields null and the only call
  made to build it is the CoinGecko request.
\<close>

theorem weekend_short_circuit:
  assumes "weekday (today_instrumentos a) = 5 \<or> weekday (today_instrumentos a) = 6"
  shows "(\<exists>m. retorna_data_instrumentos (today_instrumentos a) (yahoo a) = (Inr m, []) \<and>
            m ''price_gold'' = Some None \<and> m ''stock_index_dowjones'' = Some None \<and>
            m ''stock_index_sp500'' = Some None \<and> m ''rate_US10Y'' = Some None \<and>
            m ''stock_index_ni225'' = Some None) \<and>
         (\<forall>b. retorna_data_bitcoin (today_bitcoin a) (coingecko a) = Inr b \<longrightarrow>
            obtener_data_hoy a =
              (Inr [\<lparr> date = Some (dict_date b), price = dict_price b,
                      total_volume = dict_total_volume b, market_cap = dict_market_cap b,
                      price_gold = None, stock_index_dowjones = None,
                      stock_index_sp500 = None, rate_US10Y = None,
                      stock_index_ni225 = None \<rparr>],
               [Http_get]))"
proof -
  have w: "weekday (today_instrumentos a) \<in> set [5, 6]" using assms by auto
  have r: "retorna_data_instrumentos (today_instrumentos a) (yahoo a) =
     (Inr [''price_gold'' \<mapsto> None, ''stock_index_dowjones'' \<mapsto> None,
           ''stock_index_sp500'' \<mapsto> None, ''rate_US10Y'' \<mapsto> None,
           ''stock_index_ni225'' \<mapsto> None], [])"
    unfolding retorna_data_instrumentos_def using w by (simp only: if_True)
  show ?thesis
  proof (intro conjI allI impI)
    show "\<exists>m. retorna_data_instrumentos (today_instrumentos a) (yahoo a) = (Inr m, []) \<and>
            m ''price_gold'' = Some None \<and> m ''stock_index_dowjones'' = Some None \<and>
            m ''stock_index_sp500'' = Some None \<and> m ''rate_US10Y'' = Some None \<and>
            m ''stock_index_ni225'' = Some None"
      unfolding r by simp
  next
    fix b assume "retorna_data_bitcoin (today_bitcoin a) (coingecko a) = Inr b"
    then show "obtener_data_hoy a =
              (Inr [\<lparr> date = Some (dict_date b), price = dict_price b,
                      total_volume = dict_total_volume b, market_cap = dict_market_cap b,
                      price_gold = None, stock_index_dowjones = None,
                      stock_index_sp500 = None, rate_US10Y = None,
                      stock_index_ni225 = None \<rparr>],
               [Http_get])"
      unfolding obtener_data_hoy_def r by (simp add: pl_DataFrame_def)
  qed
qed

theorem weekend_short_circuit_witness:
  "weekday 739927 = 5 \<and>
   fst (retorna_data_instrumentos 739927 yahoo_caido) \<noteq> Inl DownloadError \<and>
   snd (retorna_data_instrumentos 739927 yahoo_caido) = [] \<and>
   obtener_data_hoy ejemplo_sabado =
     (Inr [\<lparr> date = Some 739927, price = Some 101, total_volume = Some 7,
             market_cap = Some 9, price_gold = None, stock_index_dowjones = None,
             stock_index_sp500 = None, rate_US10Y = None, stock_index_ni225 = None \<rparr>],
      [Http_get])"
proof -
  have w: "weekday (today_instrumentos ejemplo_sabado) = 5 \<or> weekday (today_instrumentos ejemplo_sabado) = 6"
    by (simp add: ejemplo_sabado_def weekday_def)
  have b: "retorna_data_bitcoin (today_bitcoin ejemplo_sabado) (coingecko ejemplo_sabado) =
     Inr \<lparr> dict_date = 739927, dict_price = Some 101,
           dict_total_volume = Some 7, dict_market_cap = Some 9 \<rparr>"
    using ejemplo_bitcoin by (simp add: ejemplo_sabado_def)
  have s: "today_instrumentos ejemplo_sabado = 739927" "yahoo ejemplo_sabado = yahoo_caido"
    by (simp_all add: ejemplo_sabado_def)
  note t = weekend_short_circuit [OF w]
  from t obtain m where "retorna_data_instrumentos 739927 yahoo_caido = (Inr m, [])"
    unfolding s by blast
  moreover from t b have "obtener_data_hoy ejemplo_sabado =
     (Inr [\<lparr> date = Some 739927, price = Some 101, total_volume = Some 7,
             market_cap = Some 9, price_gold = None, stock_index_dowjones = None,
             stock_index_sp500 = None, rate_US10Y = None, stock_index_ni225 = None \<rparr>],
      [Http_get])"
    by simp
  moreover have "weekday 739927 = 5" by (simp add: weekday_def)
  ultimately show ?thesis by simp
qed

text \<open>
  Claim C6. If on each of the three attempts of a run a stage before \<^verbatim>\<open>persistir\<close>
  fails (the fetch stage in particular), the table file after the run is the file
  before the run, byte for byte, and no write of the file happened during the run.
\<close>

theorem retry_exhaustion_preserves_store:
  fixes ans :: "nat \<Rightarrow> 'v answers" and P :: "('v, 'b) polars"
  assumes "\<forall>i \<in> {1, 2, 3}.
             (\<exists>e. fst (obtener_data_hoy (ans i)) = Inl e) \<or>
             (\<exists>e. fst (hasta_actualizar P (ans i) db) = Inl e)"
  shows "fst (pipeline_principal P ans db) = db \<and>
         Write_parquet \<notin> set (snd (pipeline_principal P ans db))"
proof -
  have three: "set [1..<4] = {1, 2, 3 :: nat}" by auto
  have "\<forall>i \<in> set [1..<4]. \<exists>e. fst (hasta_actualizar P (ans i) db) = Inl e"
  proof
    fix i :: nat assume "i \<in> set [1..<4]"
    then have "i \<in> {1, 2, 3}" by (simp only: three)
    with assms have "(\<exists>e. fst (obtener_data_hoy (ans i)) = Inl e) \<or>
             (\<exists>e. fst (hasta_actualizar P (ans i) db) = Inl e)" by blast
    then show "\<exists>e. fst (hasta_actualizar P (ans i) db) = Inl e"
      using fetch_failure_ends_attempt [of "ans i" _ P db] by blast
  qed
  then show ?thesis
    unfolding pipeline_principal_def by (rule pipeline_loop_all_failed)
qed

theorem retry_exhaustion_preserves_store_witness:
  "fst (obtener_data_hoy ejemplo_sin_red) = Inl RequestError \<and>
   fst (pipeline_principal footer_polars (\<lambda>i. ejemplo_sin_red) ejemplo_db) = ejemplo_db \<and>
   Write_parquet \<notin> set (snd (pipeline_principal footer_polars (\<lambda>i. ejemplo_sin_red) ejemplo_db))"
proof -
  have f: "fst (obtener_data_hoy ejemplo_sin_red) = Inl RequestError"
    by (simp add: obtener_data_hoy_def retorna_data_bitcoin_def ejemplo_sin_red_def)
  then have "\<forall>i \<in> {1, 2, 3 :: nat}.
             (\<exists>e. fst (obtener_data_hoy ((\<lambda>i. ejemplo_sin_red) i)) = Inl e) \<or>
             (\<exists>e. fst (hasta_actualizar footer_polars ((\<lambda>i. ejemplo_sin_red) i) ejemplo_db) = Inl e)"
    by blast
  from retry_exhaustion_preserves_store [OF this] f show ?thesis by simp
qed

text \<open>
  Claim C7. On a day that is neither Saturday nor Sunday, when every download returns
  (with or without data), all five instruments are downloaded, in the order of
  \<^verbatim>\<open>tickers\<close>, each followed by its sleep; the field of an instrument is null exactly
  when its answer is empty and the first cell of the answer otherwise, whatever the
  other answers are; and when the Bitcoin data was obtained, today's row is produced with
  those five fields.
\<close>

theorem business_day_tolerates_empty_answers:
  fixes a :: "'v answers"
  defines "today \<equiv> today_instrumentos a"
  defines "val \<equiv> \<lambda>r :: 'v list list. if df_empty r then None else Some (hd (hd r))"
  assumes "weekday today \<noteq> 5 \<and> weekday today \<noteq> 6"
    and "\<forall>(k, s) \<in> set tickers. yahoo a s today (today + 1) = Inr (resp s)"
  shows "(\<exists>m. retorna_data_instrumentos today (yahoo a) =
            (Inr m, concat (map (\<lambda>(k, s). [Download s today (today + 1), Sleep 15]) tickers)) \<and>
            (\<forall>(k, s) \<in> set tickers. m k = Some (val (resp s)))) \<and>
         (\<forall>b. retorna_data_bitcoin (today_bitcoin a) (coingecko a) = Inr b \<longrightarrow>
            fst (obtener_data_hoy a) =
              Inr [\<lparr> date = Some (dict_date b), price = dict_price b,
                     total_volume = dict_total_volume b, market_cap = dict_market_cap b,
                     price_gold = val (resp ''GC=F''),
                     stock_index_dowjones = val (resp ''^DJI''),
                     stock_index_sp500 = val (resp ''^GSPC''),
                     rate_US10Y = val (resp ''^TNX''),
                     stock_index_ni225 = val (resp ''^N225'') \<rparr>])"
proof -
  let ?m = "fold (\<lambda>(k, s) m. m(k \<mapsto> val (resp s))) tickers Map.empty"
  let ?evs = "concat (map (\<lambda>(k, s). [Download s today (today + 1), Sleep 15]) tickers)"
  have w: "weekday today \<notin> set [5, 6]" using assms(3) by simp
  have "retorna_data_instrumentos today (yahoo a) =
          instrumentos_loop (yahoo a) today (today + 1) tickers Map.empty"
    unfolding retorna_data_instrumentos_def using w by (simp only: if_False)
  also have "\<dots> = (Inr ?m, ?evs)"
    unfolding val_def using assms(4) by (rule instrumentos_loop_all_answered)
  finally have r: "retorna_data_instrumentos today (yahoo a) = (Inr ?m, ?evs)" .
  have m: "\<forall>(k, s) \<in> set tickers. ?m k = Some (val (resp s))"
    by (simp add: tickers_def)
  have keys: "?m ''price_gold'' = Some (val (resp ''GC=F''))"
    "?m ''stock_index_dowjones'' = Some (val (resp ''^DJI''))"
    "?m ''stock_index_sp500'' = Some (val (resp ''^GSPC''))"
    "?m ''rate_US10Y'' = Some (val (resp ''^TNX''))"
    "?m ''stock_index_ni225'' = Some (val (resp ''^N225''))"
    by (simp_all add: tickers_def)
  show ?thesis
  proof (intro conjI allI impI)
    show "\<exists>m. retorna_data_instrumentos today (yahoo a) = (Inr m, ?evs) \<and>
            (\<forall>(k, s) \<in> set tickers. m k = Some (val (resp s)))"
      using r m by blast
  next
    fix b assume "retorna_data_bitcoin (today_bitcoin a) (coingecko a) = Inr b"
    then show "fst (obtener_data_hoy a) =
              Inr [\<lparr> date = Some (dict_date b), price = dict_price b,
                     total_volume = dict_total_volume b, market_cap = dict_market_cap b,
                     price_gold = val (resp ''GC=F''),
                     stock_index_dowjones = val (resp ''^DJI''),
                     stock_index_sp500 = val (resp ''^GSPC''),
                     rate_US10Y = val (resp ''^TNX''),
                     stock_index_ni225 = val (resp ''^N225'') \<rparr>]"
      unfolding obtener_data_hoy_def using r [unfolded today_def]
      by (simp add: pl_DataFrame_def keys)
  qed
qed

theorem business_day_tolerates_empty_answers_witness:
  "weekday 739924 = 2 \<and>
   (\<exists>m. retorna_data_instrumentos 739924 yahoo_sin_dow =
      (Inr m,
       [Download ''GC=F'' 739924 739925, Sleep 15, Download ''^DJI'' 739924 739925, Sleep 15,
        Download ''^GSPC'' 739924 739925, Sleep 15, Download ''^TNX'' 739924 739925, Sleep 15,
        Download ''^N225'' 739924 739925, Sleep 15]) \<and>
      m ''price_gold'' = Some (Some 42) \<and> m ''stock_index_dowjones'' = Some None \<and>
      m ''stock_index_sp500'' = Some (Some 42) \<and> m ''rate_US10Y'' = Some (Some 42) \<and>
      m ''stock_index_ni225'' = Some (Some 42)) \<and>
   fst (obtener_data_hoy ejemplo_miercoles) =
     Inr [\<lparr> date = Some 739924, price = Some 101, total_volume = Some 7,
            market_cap = Some 9, price_gold = Some 42, stock_index_dowjones = None,
            stock_index_sp500 = Some 42, rate_US10Y = Some 42, stock_index_ni225 = Some 42 \<rparr>]"
proof -
  define resp :: "string \<Rightarrow> nat list list"
    where "resp = (\<lambda>s. if s = ''^DJI'' then [] else [[42, 43]])"
  have s: "today_instrumentos ejemplo_miercoles = 739924" "yahoo ejemplo_miercoles = yahoo_sin_dow"
    "today_bitcoin ejemplo_miercoles = 739924" "coingecko ejemplo_miercoles = Inr ejemplo_coingecko"
    by (simp_all add: ejemplo_miercoles_def)
  have w: "weekday (today_instrumentos ejemplo_miercoles) \<noteq> 5 \<and>
           weekday (today_instrumentos ejemplo_miercoles) \<noteq> 6"
    by (simp add: s weekday_def)
  have a: "\<forall>(k, s) \<in> set tickers.
      yahoo ejemplo_miercoles s (today_instrumentos ejemplo_miercoles)
        (today_instrumentos ejemplo_miercoles + 1) = Inr (resp s)"
    by (simp add: s tickers_def yahoo_sin_dow_def resp_def)
  have b: "retorna_data_bitcoin 739924 (Inr ejemplo_coingecko) =
     Inr \<lparr> dict_date = 739924, dict_price = Some 101,
           dict_total_volume = Some 7, dict_market_cap = Some 9 \<rparr>"
    by (simp add: retorna_data_bitcoin_def first_sample_def subscript_def ejemplo_coingecko_def)
  note t = business_day_tolerates_empty_answers
    [where a = ejemplo_miercoles and resp = resp, OF w a, unfolded s]
  from t obtain m where
    r: "retorna_data_instrumentos 739924 yahoo_sin_dow =
           (Inr m, concat (map (\<lambda>(k, s). [Download s 739924 (739924 + 1), Sleep 15]) tickers))"
    and v: "\<forall>(k, s) \<in> set tickers.
            m k = Some (if df_empty (resp s) then None else Some (hd (hd (resp s))))"
    by blast
  have "m ''price_gold'' = Some (Some 42) \<and> m ''stock_index_dowjones'' = Some None \<and>
      m ''stock_index_sp500'' = Some (Some 42) \<and> m ''rate_US10Y'' = Some (Some 42) \<and>
      m ''stock_index_ni225'' = Some (Some 42)"
    using v by (simp add: tickers_def resp_def df_empty_def)
  moreover have "weekday 739924 = 2" by (simp add: weekday_def)
  moreover have "fst (obtener_data_hoy ejemplo_miercoles) =
     Inr [\<lparr> date = Some 739924, price = Some 101, total_volume = Some 7,
            market_cap = Some 9, price_gold = Some 42, stock_index_dowjones = None,
            stock_index_sp500 = Some 42, rate_US10Y = Some 42, stock_index_ni225 = Some 42 \<rparr>]"
    using t b by (simp add: resp_def df_empty_def)
  ultimately show ?thesis using r by (simp add: tickers_def)
qed

text \<open>
  Claim C8, as stated: a failure in the middle of the save never leaves the table file
  in a state that fails to load; the file is always the complete old table or the
  complete new one. That fails: \<^verbatim>\<open>persistir\<close> writes onto the table file itself. In the
  run below the stored table loads, the write of the first attempt fails after one byte,
  the file is left holding that byte, attempts two and three fail to load it, and after
  the run the file does not load.
\<close>

theorem atomic_persistence_counterexample:
  "cargar_data_existente footer_polars ejemplo_db = Inr ejemplo_historico \<and>
   fst (pipeline_principal footer_polars (\<lambda>i. ejemplo_disco_lleno) ejemplo_db) =
     Some [Some (null_row\<lparr>date := Some 739926, price := Some 100, price_gold := Some 5\<rparr>)] \<and>
   cargar_data_existente footer_polars
     (fst (pipeline_principal footer_polars (\<lambda>i. ejemplo_disco_lleno) ejemplo_db)) = Inl ReadError"
proof -
  let ?half = "Some [Some (null_row\<lparr>date := Some 739926, price := Some (100::nat), price_gold := Some 5\<rparr>)]"
  have w: "write_end ejemplo_disco_lleno = Failed_after 1"
    by (simp add: ejemplo_disco_lleno_def)
  have first: "intento footer_polars ejemplo_disco_lleno ejemplo_db =
      (Inl WriteError, ?half, [Read_parquet, Http_get, Write_parquet])"
    by (simp add: intento_def ejemplo_hasta persistir_def w) (simp add: footer_polars_def)
  have bad: "cargar_data_existente footer_polars ?half = Inl ReadError"
    by (simp add: cargar_data_existente_def footer_polars_def)
  then have later: "intento footer_polars ejemplo_disco_lleno ?half =
      (Inl ReadError, ?half, [Read_parquet])"
    by (simp add: intento_def hasta_actualizar_def)
  have "fst (pipeline_principal footer_polars (\<lambda>i. ejemplo_disco_lleno) ejemplo_db) = ?half"
    unfolding pipeline_principal_def attempts_123 by (simp add: first later)
  then show ?thesis using bad ejemplo_carga by simp
qed

text \<open>
  Claim C8, amended: the save writes in place. After an attempt that succeeds, the file
  holds the complete encoding of the reconciled table (the stored table with today's row
  appended, after \<^verbatim>\<open>paso_final_actualizar\<close>). After an attempt that fails, the file is
  either what it was before the attempt, or the first bytes of that encoding, as many as
  were written before the failure.
\<close>

theorem persist_in_place:
  fixes a :: "'v answers" and P :: "('v, 'b) polars"
  assumes "intento P a db = (res, db', evs)"
  shows "(res = Inr () \<longrightarrow>
            (\<exists>old hoy. cargar_data_existente P db = Inr old \<and>
               fst (obtener_data_hoy a) = Inr hoy \<and>
               db' = Some (parquet_encode P (paso_final_actualizar (old @ hoy))))) \<and>
         (res \<noteq> Inr () \<longrightarrow>
            db' = db \<or>
            (\<exists>old hoy k. cargar_data_existente P db = Inr old \<and>
               fst (obtener_data_hoy a) = Inr hoy \<and>
               db' = Some (take k (parquet_encode P (paso_final_actualizar (old @ hoy))))))"
proof (cases "hasta_actualizar P a db")
  case (Pair r evs0)
  show ?thesis
  proof (cases r)
    case (Inl e)
    then have "intento P a db = (Inl e, db, evs0)"
      using Pair by (simp add: intento_def)
    then show ?thesis using assms by simp
  next
    case (Inr df)
    from Pair Inr obtain old hoy where
      old: "cargar_data_existente P db = Inr old"
      and hoy: "fst (obtener_data_hoy a) = Inr hoy"
      and df: "df = paso_final_actualizar (old @ hoy)"
      unfolding hasta_actualizar_def concatenar_def actualizar_def
      by (auto split: sum.splits prod.splits if_splits)
    have i: "intento P a db =
        (case persistir P (write_end a) df db of (res, db', evs') \<Rightarrow> (res, db', evs0 @ evs'))"
      using Pair Inr by (simp add: intento_def)
    show ?thesis
    proof (cases "write_end a")
      case Written
      then have "res = Inr () \<and> db' = Some (parquet_encode P df)"
        using i assms by (simp add: persistir_def)
      then show ?thesis using old hoy df by blast
    next
      case Open_failed
      then have "res = Inl WriteError \<and> db' = db"
        using i assms by (simp add: persistir_def)
      then show ?thesis by simp
    next
      case (Failed_after k)
      then have "res = Inl WriteError \<and> db' = Some (take k (parquet_encode P df))"
        using i assms by (simp add: persistir_def)
      then show ?thesis using old hoy df by blast
    qed
  qed
qed

theorem persist_in_place_witness:
  "intento footer_polars ejemplo_sabado ejemplo_db =
     (Inr (),
      Some [Some (null_row\<lparr>date := Some 739926, price := Some 100, price_gold := Some 5\<rparr>),
            Some (null_row\<lparr>date := Some 739927, price := Some 101, total_volume := Some 7,
                     market_cap := Some 9, price_gold := Some 5\<rparr>),
            None],
      [Read_parquet, Http_get, Write_parquet]) \<and>
   (\<exists>old hoy. cargar_data_existente footer_polars ejemplo_db = Inr old \<and>
      fst (obtener_data_hoy ejemplo_sabado) = Inr hoy \<and>
      Some [Some (null_row\<lparr>date := Some 739926, price := Some 100, price_gold := Some 5\<rparr>),
            Some (null_row\<lparr>date := Some 739927, price := Some 101, total_volume := Some 7,
                     market_cap := Some 9, price_gold := Some 5\<rparr>),
            None] =
      Some (parquet_encode footer_polars (paso_final_actualizar (old @ hoy))))"
proof -
  have w: "write_end ejemplo_sabado = Written"
    by (simp add: ejemplo_sabado_def)
  have i: "intento footer_polars ejemplo_sabado ejemplo_db =
     (Inr (),
      Some [Some (null_row\<lparr>date := Some 739926, price := Some 100, price_gold := Some 5\<rparr>),
            Some (null_row\<lparr>date := Some 739927, price := Some 101, total_volume := Some 7,
                     market_cap := Some 9, price_gold := Some 5\<rparr>),
            None],
      [Read_parquet, Http_get, Write_parquet])"
    by (simp add: intento_def ejemplo_hasta persistir_def w) (simp add: footer_polars_def)
  from persist_in_place [OF i] i show ?thesis by blast
qed

text \<open>
  Claim C9. The set of dates of the frame that \<^verbatim>\<open>paso_final_actualizar\<close> returns is the
  set of dates of its input, no date added and none dropped, and every date is the date
  of exactly one output row.
\<close>

theorem reconcile_keeps_dates:
  "set (map date (paso_final_actualizar df)) = set (map date df) \<and>
   distinct (map date (paso_final_actualizar df))"
proof
  have "set (map date (paso_final_actualizar df)) = set (map date (pl_unique_last (pl_sort df)))"
    by (simp only: dates_paso)
  also have "\<dots> = set (map date (pl_sort df))"
    by (rule dates_pl_unique_last)
  also have "\<dots> = set (map date df)"
    by (simp add: set_pl_sort)
  finally show "set (map date (paso_final_actualizar df)) = set (map date df)" .
  show "distinct (map date (paso_final_actualizar df))"
    by (rule distinct_paso)
qed

text \<open>
  Claim C10. A cell that holds a value in a row that survives deduplication holds the
  same value in the output, in the row of the same position and the same date: forward
  fill replaces nulls only. The rows that survive deduplication are
  \<open>pl_unique_last (pl_sort df)\<close>.
\<close>

theorem forward_fill_keeps_values:
  assumes "i < length (pl_unique_last (pl_sort df))"
    and "cell c (pl_unique_last (pl_sort df) ! i) = Some v"
  shows "cell c (paso_final_actualizar df ! i) = Some v \<and>
         date (paso_final_actualizar df ! i) = date (pl_unique_last (pl_sort df) ! i)"
proof
  show "cell c (paso_final_actualizar df ! i) = Some v"
    unfolding paso_final_actualizar_def pl_fill_null_forward_def
    using assms by (rule cell_fill_from_keep)
  have "map date (paso_final_actualizar df) ! i = map date (pl_unique_last (pl_sort df)) ! i"
    by (simp only: dates_paso)
  then show "date (paso_final_actualizar df ! i) = date (pl_unique_last (pl_sort df) ! i)"
    using assms(1) by (simp add: length_paso)
qed

theorem forward_fill_keeps_values_witness:
  "cell Price (paso_final_actualizar ejemplo_huecos ! 3) = Some 8 \<and>
   date (paso_final_actualizar ejemplo_huecos ! 3) = Some 739924"
proof -
  have 1: "3 < length (pl_unique_last (pl_sort ejemplo_huecos))"
    by (simp add: ejemplo_defs)
  have 2: "cell Price (pl_unique_last (pl_sort ejemplo_huecos) ! 3) = Some 8"
    by (simp add: ejemplo_defs)
  have 3: "date (pl_unique_last (pl_sort ejemplo_huecos) ! 3) = Some 739924"
    by (simp add: ejemplo_defs)
  show ?thesis using forward_fill_keeps_values [OF 1 2] 3 by simp
qed

end
